theory Spec2Isabelle
  imports Complex_Main
begin

section \<open>Data model of \<open>flight_monitor.py\<close>\<close>

text \<open>
  The price store is the JSON object of \<open>prices.json\<close>: a dictionary from tracking keys to
  dictionaries. Only the JSON values the monitor itself writes are modelled: \<open>null\<close>,
  integers and strings. A dictionary is a partial map, so that a key that is missing
  (\<open>None\<close>) differs from a key bound to \<open>null\<close> (\<open>Some JNull\<close>).
\<close>

datatype jval = JNull | JInt int | JStr string

type_synonym tracking = "string \<rightharpoonup> jval"

type_synonym price_store = "string \<rightharpoonup> tracking"

text \<open>
  A candidate flight is the dictionary that \<open>stable_mock_flights\<close> and \<open>parse_list_like\<close>
  build: all six keys are present, the price is an integer, the other fields are taken
  to be strings.
\<close>

record candidate =
  airline :: string
  flightNo :: string
  depart :: string
  arrive :: string
  duration :: string
  price :: int

text \<open>An entry of \<open>load_selected_flights\<close>: \<open>key\<close>, \<open>flightNo\<close> and \<open>airline\<close>.\<close>

record subscription =
  key :: string
  sub_flightNo :: string
  sub_airline :: string

text \<open>The two settings read from the environment at start.\<close>

record config =
  ALERT_MODE :: string
  MIN_CHANGE_PCT :: rat

text \<open>
  The exceptions that escape \<open>check_once\<close>. \<open>ValueError\<close> is raised only by the
  unpacking of \<open>key.split\<close> and by \<open>datetime.fromisoformat\<close>, and is caught in place.
\<close>

datatype error = KeyError | TypeError

subsection \<open>Library behaviour the monitor relies on\<close>

text \<open>
  \<open>str.lower\<close> on byte strings: the letters \<open>A\<close> to \<open>Z\<close> are mapped to \<open>a\<close> to \<open>z\<close>.
\<close>

definition lower_char :: "char \<Rightarrow> char" where
  "lower_char c =
     (case map_of (zip ''ABCDEFGHIJKLMNOPQRSTUVWXYZ'' ''abcdefghijklmnopqrstuvwxyz'') c of
        None \<Rightarrow> c
      | Some d \<Rightarrow> d)"

definition lower :: "string \<Rightarrow> string" where
  "lower s = map lower_char s"

text \<open>
  A \<open>datetime\<close> is either naive or aware of its offset; the integer counts microseconds
  (of the wall clock for a naive value, of the UTC instant for an aware one). Python
  subtracts two naive or two aware values and raises \<open>TypeError\<close> on a mixed pair.
  The difference is a \<open>timedelta\<close>, here its number of microseconds.
  \<open>total_seconds\<close> is a binary floating-point number in the source and the exact
  quotient here: the conversion is monotone and exact at 900, and distinct distances of
  at most 900 seconds stay distinct, so the comparisons of \<open>find_fallback\<close> select and
  accept the same candidate.
\<close>

datatype datetime = Naive int | Aware int

fun dt_sub :: "datetime \<Rightarrow> datetime \<Rightarrow> error + int" where
  "dt_sub (Naive a) (Naive b) = Inr (a - b)"
| "dt_sub (Aware a) (Aware b) = Inr (a - b)"
| "dt_sub (Naive a) (Aware b) = Inl TypeError"
| "dt_sub (Aware a) (Naive b) = Inl TypeError"

definition total_seconds :: "int \<Rightarrow> rat" where
  "total_seconds td = of_int td / 1000000"

text \<open>
  \<open>datetime.fromisoformat\<close> is a parameter \<open>parse\<close> of the model, of type
  \<open>string \<Rightarrow> datetime option\<close>: \<open>None\<close> stands for the \<open>ValueError\<close> of a string that
  does not parse. Applied to a stored JSON value that is not a string it raises
  \<open>TypeError\<close>, which \<open>find_fallback\<close> catches all the same.
\<close>

type_synonym isoparser = "string \<Rightarrow> datetime option"

fun fromisoformat :: "isoparser \<Rightarrow> jval \<Rightarrow> datetime option" where
  "fromisoformat parse (JStr s) = parse s"
| "fromisoformat parse v = None"

text \<open>Truth value of a stored JSON value, as \<open>not x\<close> tests it.\<close>

fun truthy :: "jval \<Rightarrow> bool" where
  "truthy JNull = False"
| "truthy (JInt n) = (n \<noteq> 0)"
| "truthy (JStr s) = (s \<noteq> [])"

section \<open>Smart matching\<close>

text \<open>\<open>find_exact\<close>: the first candidate whose flight number is \<open>flight_no\<close>.\<close>

definition find_exact :: "candidate list \<Rightarrow> string \<Rightarrow> candidate option" where
  "find_exact flights flight_no = find (\<lambda>f. flightNo f = flight_no) flights"

text \<open>
  The loop of \<open>find_fallback\<close> over \<open>same_air\<close>, with the pair \<open>(best, best_delta)\<close> as
  accumulator. A candidate whose \<open>depart\<close> does not parse is skipped; the subtraction
  stands outside the \<open>try\<close> and its \<open>TypeError\<close> leaves the loop.
\<close>

fun fallback_loop ::
  "isoparser \<Rightarrow> datetime \<Rightarrow> candidate list \<Rightarrow> (candidate \<times> rat) option
     \<Rightarrow> error + (candidate \<times> rat) option" where
  "fallback_loop parse target [] best = Inr best"
| "fallback_loop parse target (f # fs) best =
     (case parse (depart f) of
        None \<Rightarrow> fallback_loop parse target fs best
      | Some dep \<Rightarrow>
          (case dt_sub dep target of
             Inl e \<Rightarrow> Inl e
           | Inr td \<Rightarrow>
               (let delta = \<bar>total_seconds td\<bar> in
                if (case best of None \<Rightarrow> True | Some (b, best_delta) \<Rightarrow> delta < best_delta)
                then fallback_loop parse target fs (Some (f, delta))
                else fallback_loop parse target fs best)))"

definition find_fallback ::
  "isoparser \<Rightarrow> candidate list \<Rightarrow> string \<Rightarrow> jval \<Rightarrow> error + candidate option" where
  "find_fallback parse flights airline_name last_depart_iso =
     (if airline_name = [] \<or> \<not> truthy last_depart_iso then Inr None
      else
        (case fromisoformat parse last_depart_iso of
           None \<Rightarrow> Inr None
         | Some target \<Rightarrow>
             (let same_air = filter (\<lambda>f. lower (airline f) = lower airline_name) flights in
              if same_air = [] then Inr None
              else
                (case fallback_loop parse target same_air None of
                   Inl e \<Rightarrow> Inl e
                 | Inr None \<Rightarrow> Inr None
                 | Inr (Some (best, best_delta)) \<Rightarrow>
                     (if best_delta \<le> 15 * 60 then Inr (Some best) else Inr None)))))"

section \<open>The monitoring pass\<close>

text \<open>
  \<open>key.split("-", 2)\<close> unpacked into three names: the key is cut at its first two
  dashes; with fewer than two dashes the unpacking raises \<open>ValueError\<close> (\<open>None\<close> here)
  and the subscription is skipped.
\<close>

fun split_once :: "string \<Rightarrow> (string \<times> string) option" where
  "split_once [] = None"
| "split_once (c # cs) =
     (if c = CHR ''-'' then Some ([], cs)
      else (case split_once cs of None \<Rightarrow> None | Some (a, b) \<Rightarrow> Some (c # a, b)))"

definition split_key :: "string \<Rightarrow> (string \<times> string \<times> string) option" where
  "split_key k =
     (case split_once k of
        None \<Rightarrow> None
      | Some (origin, rest) \<Rightarrow>
          (case split_once rest of
             None \<Rightarrow> None
           | Some (dest, date) \<Rightarrow> Some (origin, dest, date)))"

text \<open>The default of \<open>store.get(price_key, ...)\<close> and the records the pass writes.\<close>

definition mk_record :: "jval \<Rightarrow> jval \<Rightarrow> jval \<Rightarrow> jval \<Rightarrow> tracking" where
  "mk_record lp lnp lnd ld =
     [''last_price'' \<mapsto> lp, ''last_notified_price'' \<mapsto> lnp,
      ''last_notified_dir'' \<mapsto> lnd, ''last_depart'' \<mapsto> ld]"

definition no_record :: tracking where
  "no_record = mk_record JNull JNull JNull JNull"

definition prev_of :: "price_store \<Rightarrow> string \<Rightarrow> tracking" where
  "prev_of st price_key = (case st price_key of None \<Rightarrow> no_record | Some r \<Rightarrow> r)"

text \<open>
  Lines 203 and 204, where the source's variable \<open>last\<close> is called \<open>last_price\<close>:
  \<open>prev["last_price"]\<close>, \<open>prev["last_notified_price"]\<close> and
  \<open>prev["last_depart"]\<close> raise \<open>KeyError\<close> on a missing key;
  \<open>prev.get("last_notified_dir")\<close> reads a missing key as \<open>None\<close>.
\<close>

definition read_prev :: "tracking \<Rightarrow> error + (jval \<times> jval \<times> jval \<times> jval)" where
  "read_prev prev =
     (case prev ''last_price'' of
        None \<Rightarrow> Inl KeyError
      | Some last_price \<Rightarrow>
          (case prev ''last_notified_price'' of
             None \<Rightarrow> Inl KeyError
           | Some last_notified \<Rightarrow>
               (let last_dir = (case prev ''last_notified_dir'' of None \<Rightarrow> JNull | Some d \<Rightarrow> d) in
                case prev ''last_depart'' of
                  None \<Rightarrow> Inl KeyError
                | Some last_depart \<Rightarrow> Inr (last_price, last_notified, last_dir, last_depart))))"

text \<open>\<open>min(same, key=lambda x: x["price"])\<close>: the first candidate of least price.\<close>

fun cheapest :: "candidate \<Rightarrow> candidate list \<Rightarrow> candidate" where
  "cheapest b [] = b"
| "cheapest b (f # fs) = (if price f < price b then cheapest f fs else cheapest b fs)"

text \<open>Lines 212 to 214: the same-airline candidates and their cheapest, if there is one.\<close>

definition auto_snap :: "candidate list \<Rightarrow> string \<Rightarrow> candidate option" where
  "auto_snap flights airline_name =
     (case filter (\<lambda>f. lower (airline f) = lower airline_name) flights of
        [] \<Rightarrow> None
      | f # fs \<Rightarrow> Some (cheapest f fs))"

text \<open>
  Lines 206 to 215, the three tiers in order. The result is the value of \<open>found\<close>, with
  a flag telling whether the \<open>[snap]\<close> line was printed, that is whether the third tier
  chose it.
\<close>

definition find_flight ::
  "isoparser \<Rightarrow> candidate list \<Rightarrow> string \<Rightarrow> string \<Rightarrow> jval \<Rightarrow> jval
     \<Rightarrow> error + (candidate option \<times> bool)" where
  "find_flight parse flights flight_no airline_name last_price last_depart =
     (case find_exact flights flight_no of
        Some f \<Rightarrow> Inr (Some f, False)
      | None \<Rightarrow>
          (case find_fallback parse flights airline_name last_depart of
             Inl e \<Rightarrow> Inl e
           | Inr (Some f) \<Rightarrow> Inr (Some f, False)
           | Inr None \<Rightarrow>
               (if last_price = JNull \<and> airline_name \<noteq> [] then
                  (case auto_snap flights airline_name of
                     None \<Rightarrow> Inr (None, False)
                   | Some f \<Rightarrow> Inr (Some f, True))
                else Inr (None, False))))"

text \<open>
  The two message templates, as the values they are filled with: origin, destination,
  date, flight number, airline, new price, old price and \<open>pct_move\<close>.
\<close>

datatype message =
  Price_drop string string string string string int int rat
| Price_rise string string string string string int int rat

text \<open>
  Lines 237 to 244. The source computes \<open>pct_move\<close> in binary floating point; here it is
  the exact quotient.
\<close>

definition pct_move :: "int \<Rightarrow> int \<Rightarrow> rat" where
  "pct_move p l = (if l \<le> 0 then 0 else 100 * of_int \<bar>p - l\<bar> / of_int l)"

definition direction :: "int \<Rightarrow> int \<Rightarrow> string" where
  "direction p l = (if p < l then ''drop'' else if p > l then ''rise'' else ''flat'')"

definition should_alert :: "config \<Rightarrow> int \<Rightarrow> int \<Rightarrow> jval \<Rightarrow> jval \<Rightarrow> bool" where
  "should_alert cfg p l last_notified last_dir =
     (if direction p l = ''drop'' \<and> (ALERT_MODE cfg = ''drop'' \<or> ALERT_MODE cfg = ''both'')
         \<and> pct_move p l \<ge> MIN_CHANGE_PCT cfg
      then JInt p \<noteq> last_notified \<or> last_dir \<noteq> JStr ''drop''
      else if direction p l = ''rise'' \<and> (ALERT_MODE cfg = ''rise'' \<or> ALERT_MODE cfg = ''both'')
         \<and> pct_move p l \<ge> MIN_CHANGE_PCT cfg
      then JInt p \<noteq> last_notified \<or> last_dir \<noteq> JStr ''rise''
      else False)"

text \<open>
  Lines 222 to 271 for a matched candidate: the record stored under \<open>price_key\<close> and the
  message handed to \<open>notify\<close>, if any. A stored \<open>last_price\<close> that is a string makes
  \<open>last <= 0\<close> raise \<open>TypeError\<close>.
\<close>

definition alert_logic ::
  "config \<Rightarrow> string \<times> string \<times> string \<Rightarrow> string \<Rightarrow> string \<Rightarrow> candidate
     \<Rightarrow> jval \<Rightarrow> jval \<Rightarrow> jval \<Rightarrow> error + (tracking \<times> message option)" where
  "alert_logic cfg route flight_no airline_name found last_price last_notified last_dir =
     (let p = price found; depart_iso = JStr (depart found) in
      case last_price of
        JNull \<Rightarrow> Inr (mk_record (JInt p) JNull JNull depart_iso, None)
      | JStr s \<Rightarrow> Inl TypeError
      | JInt l \<Rightarrow>
          (if should_alert cfg p l last_notified last_dir then
             (case route of (origin, dest, date) \<Rightarrow>
                Inr (mk_record (JInt p) (JInt p) (JStr (direction p l)) depart_iso,
                     Some ((if direction p l = ''drop'' then Price_drop else Price_rise)
                             origin dest date flight_no airline_name p l (pct_move p l))))
           else Inr (mk_record (JInt p) last_notified last_dir depart_iso, None)))"

text \<open>
  What one pass has done so far: the store in memory, the flag \<open>changed\<close>, the messages
  handed to \<open>notify\<close> and the lines printed.
\<close>

datatype event =
  No_subscriptions
| Bad_key string
| Snapped string string string
| Not_found string jval
| Observed string int jval jval jval

record pass =
  store :: price_store
  changed :: bool
  sent :: "message list"
  printed :: "event list"

text \<open>The tracking key of a subscription, \<open>f"{key}#{flight_no}"\<close>.\<close>

definition price_key_of :: "subscription \<Rightarrow> string" where
  "price_key_of sub = key sub @ ''#'' @ sub_flightNo sub"

type_synonym fetcher = "string \<Rightarrow> string \<Rightarrow> string \<Rightarrow> candidate list"

text \<open>
  The body of the loop of \<open>check_once\<close> for one subscription. An exception comes with
  the state at the moment it is raised.
\<close>

definition process ::
  "isoparser \<Rightarrow> fetcher \<Rightarrow> config \<Rightarrow> subscription \<Rightarrow> pass \<Rightarrow> (error \<times> pass) + pass" where
  "process parse fetch_flights cfg sub st =
     (case split_key (key sub) of
        None \<Rightarrow> Inr (st\<lparr>printed := printed st @ [Bad_key (key sub)]\<rparr>)
      | Some (origin, dest, date) \<Rightarrow>
          (let flight_no = sub_flightNo sub;
               airline_name = sub_airline sub;
               flights = fetch_flights origin dest date;
               price_key = price_key_of sub;
               prev = prev_of (store st) price_key
           in
           case read_prev prev of
             Inl e \<Rightarrow> Inl (e, st)
           | Inr (last_price, last_notified, last_dir, last_depart) \<Rightarrow>
               (case find_flight parse flights flight_no airline_name last_price last_depart of
                  Inl e \<Rightarrow> Inl (e, st)
                | Inr (None, snapped) \<Rightarrow>
                    Inr (st\<lparr>printed := printed st @ [Not_found price_key last_price]\<rparr>)
                | Inr (Some found, snapped) \<Rightarrow>
                    (let out = printed st
                           @ (if snapped then [Snapped price_key (flightNo found) (depart found)]
                              else [])
                           @ [Observed price_key (price found) last_price last_notified last_dir]
                     in
                     case alert_logic cfg (origin, dest, date) flight_no airline_name found
                            last_price last_notified last_dir of
                       Inl e \<Rightarrow> Inl (e, st\<lparr>printed := out\<rparr>)
                     | Inr (entry, msg) \<Rightarrow>
                         Inr (st\<lparr>store := (store st)(price_key \<mapsto> entry),
                                 changed := True,
                                 sent := sent st @ (case msg of None \<Rightarrow> [] | Some m \<Rightarrow> [m]),
                                 printed := out\<rparr>)))))"

fun run_subs ::
  "isoparser \<Rightarrow> fetcher \<Rightarrow> config \<Rightarrow> subscription list \<Rightarrow> pass \<Rightarrow> (error \<times> pass) + pass" where
  "run_subs parse fetch_flights cfg [] st = Inr st"
| "run_subs parse fetch_flights cfg (sub # subs) st =
     (case process parse fetch_flights cfg sub st of
        Inl e \<Rightarrow> Inl e
      | Inr st' \<Rightarrow> run_subs parse fetch_flights cfg subs st')"

text \<open>
  \<open>check_once\<close>, from the selected subscriptions and the store read from the file to what
  the pass leaves behind: the exception that ended it, the store handed to \<open>set_store\<close>
  (\<open>None\<close> when \<open>set_store\<close> is not called), the messages handed to \<open>notify\<close> and the
  lines printed.
\<close>

record outcome =
  raised :: "error option"
  saved :: "price_store option"
  notified :: "message list"
  lines :: "event list"

definition check_once ::
  "isoparser \<Rightarrow> fetcher \<Rightarrow> config \<Rightarrow> subscription list \<Rightarrow> price_store \<Rightarrow> outcome" where
  "check_once parse fetch_flights cfg selected file_store =
     (if selected = [] then
        \<lparr>raised = None, saved = None, notified = [], lines = [No_subscriptions]\<rparr>
      else
        (case run_subs parse fetch_flights cfg selected
                \<lparr>store = file_store, changed = False, sent = [], printed = []\<rparr> of
           Inl (e, st) \<Rightarrow>
             \<lparr>raised = Some e, saved = None, notified = sent st, lines = printed st\<rparr>
         | Inr st \<Rightarrow>
             \<lparr>raised = None, saved = (if changed st then Some (store st) else None),
              notified = sent st, lines = printed st\<rparr>))"

text \<open>
  The file after a pass, and the main loop over a finite number of passes, each with its
  own flight source and subscription list. An exception other than \<open>KeyboardInterrupt\<close>
  ends the process, and the file stays as the last completed pass left it.
\<close>

definition file_after :: "price_store \<Rightarrow> outcome \<Rightarrow> price_store" where
  "file_after file_store out = (case saved out of None \<Rightarrow> file_store | Some s \<Rightarrow> s)"

fun main_loop ::
  "isoparser \<Rightarrow> config \<Rightarrow> (fetcher \<times> subscription list) list \<Rightarrow> price_store \<Rightarrow> price_store" where
  "main_loop parse cfg [] file_store = file_store"
| "main_loop parse cfg ((fetch_flights, selected) # rest) file_store =
     (let out = check_once parse fetch_flights cfg selected file_store in
      case raised out of
        Some e \<Rightarrow> file_store
      | None \<Rightarrow> main_loop parse cfg rest (file_after file_store out))"

section \<open>Notions used to state the properties\<close>

text \<open>
  The value of \<open>delta\<close> in the loop of \<open>find_fallback\<close> for a candidate, when its
  departure parses and can be subtracted from the target.
\<close>

definition delta_of :: "isoparser \<Rightarrow> datetime \<Rightarrow> candidate \<Rightarrow> rat option" where
  "delta_of parse target f =
     (case parse (depart f) of
        None \<Rightarrow> None
      | Some dep \<Rightarrow>
          (case dt_sub dep target of Inl e \<Rightarrow> None | Inr td \<Rightarrow> Some \<bar>total_seconds td\<bar>))"

text \<open>
  The first element of a list whose value is the least of all values; an element without
  value does not compete. This is the reading of "select the minimum, the first candidate
  encountered with the minimum wins" against which the two selection loops are compared.
\<close>

definition first_least :: "('a \<Rightarrow> 'b::linorder option) \<Rightarrow> 'a list \<Rightarrow> 'a option" where
  "first_least val xs =
     (case List.map_filter val xs of
        [] \<Rightarrow> None
      | v # vs \<Rightarrow> find (\<lambda>x. val x = Some (Min (set (v # vs)))) xs)"

text \<open>
  The fallback tier in the words of the specification: among the candidates of the same
  airline, the first of least distance to the target, accepted when that distance is at
  most 900 seconds.
\<close>

definition closest_within ::
  "isoparser \<Rightarrow> candidate list \<Rightarrow> string \<Rightarrow> datetime \<Rightarrow> candidate option" where
  "closest_within parse flights airline_name target =
     (case first_least (delta_of parse target)
             (filter (\<lambda>f. lower (airline f) = lower airline_name) flights) of
        None \<Rightarrow> None
      | Some f \<Rightarrow>
          (case delta_of parse target f of
             None \<Rightarrow> None
           | Some d \<Rightarrow> if d \<le> 900 then Some f else None))"

text \<open>
  The candidate that the three tiers yield for a subscription, given the entry stored
  under its tracking key: \<open>None\<close> when the key is malformed, when reading the entry or
  matching raises, and when no tier finds a flight.
\<close>

definition resolve ::
  "isoparser \<Rightarrow> fetcher \<Rightarrow> subscription \<Rightarrow> tracking option \<Rightarrow> candidate option" where
  "resolve parse fetch_flights sub entry =
     (case split_key (key sub) of
        None \<Rightarrow> None
      | Some (origin, dest, date) \<Rightarrow>
          (case read_prev (case entry of None \<Rightarrow> no_record | Some r \<Rightarrow> r) of
             Inl e \<Rightarrow> None
           | Inr (last_price, last_notified, last_dir, last_depart) \<Rightarrow>
               (case find_flight parse (fetch_flights origin dest date) (sub_flightNo sub)
                       (sub_airline sub) last_price last_depart of
                  Inl e \<Rightarrow> None
                | Inr (found, snapped) \<Rightarrow> found)))"

text \<open>The state in which a step or a pass ends, normally or by an exception.\<close>

definition ending :: "(error \<times> pass) + pass \<Rightarrow> pass" where
  "ending r = (case r of Inl (e, st) \<Rightarrow> st | Inr st \<Rightarrow> st)"

fun is_Observed :: "event \<Rightarrow> bool" where
  "is_Observed (Observed k p a b c) = True"
| "is_Observed ev = False"

section \<open>A concrete setting for the examples\<close>

text \<open>
  An instance of the timestamp parser for the examples. It reads the layout that
  \<open>stable_mock_flights\<close> prints, \<open>YYYY-MM-DDTHH:MM\<close>, and the same layout followed by a
  UTC offset \<open>+HH:MM\<close> or \<open>-HH:MM\<close>, as \<open>datetime.fromisoformat\<close> does; every other
  string is rejected here. The general results below hold for every parser.
\<close>

definition digit :: "char \<Rightarrow> int option" where
  "digit c = map_of (zip ''0123456789'' [0, 1, 2, 3, 4, 5, 6, 7, 8, 9]) c"

fun digits :: "int \<Rightarrow> string \<Rightarrow> int option" where
  "digits acc [] = Some acc"
| "digits acc (c # cs) = (case digit c of None \<Rightarrow> None | Some d \<Rightarrow> digits (10 * acc + d) cs)"

definition number :: "string \<Rightarrow> int option" where
  "number s = (if s = [] then None else digits 0 s)"

definition days_in_month :: "int \<Rightarrow> int \<Rightarrow> int" where
  "days_in_month y m =
     (if m = 2 then (if y mod 4 = 0 \<and> (y mod 100 \<noteq> 0 \<or> y mod 400 = 0) then 29 else 28)
      else if m = 4 \<or> m = 6 \<or> m = 9 \<or> m = 11 then 30 else 31)"

text \<open>Days from 1970-01-01 to a date of the proleptic Gregorian calendar.\<close>

definition days_from_civil :: "int \<Rightarrow> int \<Rightarrow> int \<Rightarrow> int" where
  "days_from_civil y m d =
     (let y' = (if m \<le> 2 then y - 1 else y);
          era = y' div 400;
          yoe = y' mod 400;
          doy = (153 * (if m > 2 then m - 3 else m + 9) + 2) div 5 + d - 1;
          doe = yoe * 365 + yoe div 4 - yoe div 100 + doy
      in era * 146097 + doe - 719468)"

definition utc_offset :: "string \<Rightarrow> int option" where
  "utc_offset t =
     (if length t = 6 \<and> (t ! 0 = CHR ''+'' \<or> t ! 0 = CHR ''-'') \<and> t ! 3 = CHR '':'' then
        (case (number (take 2 (drop 1 t)), number (take 2 (drop 4 t))) of
           (Some h, Some mi) \<Rightarrow>
             (if h \<le> 23 \<and> mi \<le> 59
              then Some ((if t ! 0 = CHR ''-'' then - 1 else 1) * (h * 60 + mi) * 60000000)
              else None)
         | _ \<Rightarrow> None)
      else None)"

definition iso_minutes :: isoparser where
  "iso_minutes s =
     (if (length s = 16 \<or> length s = 22) \<and> s ! 4 = CHR ''-'' \<and> s ! 7 = CHR ''-''
         \<and> s ! 13 = CHR '':'' then
        (case (number (take 4 s), number (take 2 (drop 5 s)), number (take 2 (drop 8 s)),
               number (take 2 (drop 11 s)), number (take 2 (drop 14 s))) of
           (Some y, Some m, Some d, Some h, Some mi) \<Rightarrow>
             (if 1 \<le> y \<and> 1 \<le> m \<and> m \<le> 12 \<and> 1 \<le> d \<and> d \<le> days_in_month y m
                 \<and> h \<le> 23 \<and> mi \<le> 59 then
                (let wall = ((days_from_civil y m d * 24 + h) * 60 + mi) * 60000000 in
                 if length s = 16 then Some (Naive wall)
                 else (case utc_offset (drop 16 s) of
                         None \<Rightarrow> None
                       | Some off \<Rightarrow> Some (Aware (wall - off))))
              else None)
         | _ \<Rightarrow> None)
      else None)"

text \<open>
  One route with four candidates, one subscription, and the settings of the scenario of
  the specification (mode \<open>drop\<close>, threshold 1 percent).
\<close>

definition flight :: "string \<Rightarrow> string \<Rightarrow> string \<Rightarrow> int \<Rightarrow> candidate" where
  "flight a n d p =
     \<lparr>airline = a, flightNo = n, depart = d, arrive = [], duration = [], price = p\<rparr>"

definition ex_flights :: "candidate list" where
  "ex_flights =
     [flight ''Air India'' ''AI207'' ''2025-08-25T06:30'' 5200,
      flight ''IndiGo'' ''6E200'' ''2025-08-25T08:00'' 4900,
      flight ''IndiGo'' ''6E214'' ''2025-08-25T09:30'' 4700,
      flight ''Akasa'' ''QP221'' ''soon'' 4100]"

definition ex_fetch :: "candidate list \<Rightarrow> fetcher" where
  "ex_fetch fl origin dest date =
     (if origin = ''DEL'' \<and> dest = ''BLR'' \<and> date = ''2025-08-25'' then fl else [])"

definition ex_sub :: "string \<Rightarrow> string \<Rightarrow> subscription" where
  "ex_sub n a = \<lparr>key = ''DEL-BLR-2025-08-25'', sub_flightNo = n, sub_airline = a\<rparr>"

definition ex_cfg :: "string \<Rightarrow> config" where
  "ex_cfg mode = \<lparr>ALERT_MODE = mode, MIN_CHANGE_PCT = 1\<rparr>"

definition ex_pass :: "price_store \<Rightarrow> pass" where
  "ex_pass s = \<lparr>store = s, changed = False, sent = [], printed = []\<rparr>"

text \<open>A store holding one record, under the tracking key of flight \<open>6E200\<close>.\<close>

definition ex_store :: "jval \<Rightarrow> jval \<Rightarrow> jval \<Rightarrow> jval \<Rightarrow> price_store" where
  "ex_store lp lnp lnd ld = [''DEL-BLR-2025-08-25#6E200'' \<mapsto> mk_record lp lnp lnd ld]"

text \<open>The same record without its \<open>last_price\<close> field.\<close>

definition ex_broken_store :: price_store where
  "ex_broken_store =
     [''DEL-BLR-2025-08-25#6E200'' \<mapsto>
        [''last_notified_price'' \<mapsto> JNull, ''last_notified_dir'' \<mapsto> JNull,
         ''last_depart'' \<mapsto> JStr ''2025-08-25T08:00'']]"

text \<open>The candidates of a later pass, in which flight \<open>6E200\<close> is no longer listed.\<close>

definition ex_later_flights :: "candidate list" where
  "ex_later_flights =
     [flight ''Air India'' ''AI207'' ''2025-08-25T06:30'' 5200,
      flight ''IndiGo'' ''6E214'' ''2025-08-25T09:30'' 4700]"

section \<open>Properties of the alert decision\<close>

text \<open>
  When the key splits, the stored entry reads without error and a tier finds a flight,
  the step is the alert logic applied to that flight.
\<close>

lemma process_matched:
  assumes "split_key (key sub) = Some (origin, dest, date)"
    and "read_prev (prev_of (store st) (price_key_of sub)) = Inr (lp, lnp, lnd, ldp)"
    and "find_flight parse (fetch_flights origin dest date) (sub_flightNo sub) (sub_airline sub)
           lp ldp = Inr (Some found, snapped)"
  shows "process parse fetch_flights cfg sub st =
     (let out = printed st
            @ (if snapped then [Snapped (price_key_of sub) (flightNo found) (depart found)] else [])
            @ [Observed (price_key_of sub) (price found) lp lnp lnd]
      in case alert_logic cfg (origin, dest, date) (sub_flightNo sub) (sub_airline sub) found
                lp lnp lnd of
           Inl e \<Rightarrow> Inl (e, st\<lparr>printed := out\<rparr>)
         | Inr (entry, msg) \<Rightarrow>
             Inr (st\<lparr>store := (store st)(price_key_of sub \<mapsto> entry),
                     changed := True,
                     sent := sent st @ (case msg of None \<Rightarrow> [] | Some m \<Rightarrow> [m]),
                     printed := out\<rparr>))"
  using assms by (simp add: process_def Let_def)

text \<open>The three directions in terms of the two prices.\<close>

lemma direction_cases:
  "direction p l = ''drop'' \<longleftrightarrow> p < l"
  "direction p l = ''rise'' \<longleftrightarrow> l < p"
  "direction p l = ''flat'' \<longleftrightarrow> p = l"
  by (auto simp: direction_def)

text \<open>
  Claim C1. For a matched flight with a baseline whose move is a candidate alert (its
  direction is enabled by \<open>ALERT_MODE\<close> and \<open>pct_move\<close> reaches \<open>MIN_CHANGE_PCT\<close>), the
  alert fires if and only if the new price differs from the stored
  \<open>last_notified_price\<close> or the new direction differs from the stored
  \<open>last_notified_dir\<close>. When it fires, one message is sent and the record holds the new
  price and the new direction as notified; when it does not, nothing is sent and the
  notification fields stay as they were.
\<close>

theorem C1_dedup_gate:
  assumes "split_key (key sub) = Some (origin, dest, date)"
    and "read_prev (prev_of (store st) (price_key_of sub))
           = Inr (JInt l, last_notified, last_dir, last_depart)"
    and "find_flight parse (fetch_flights origin dest date) (sub_flightNo sub) (sub_airline sub)
           (JInt l) last_depart = Inr (Some found, snapped)"
    and "(direction (price found) l = ''drop''
            \<and> (ALERT_MODE cfg = ''drop'' \<or> ALERT_MODE cfg = ''both''))
         \<or> (direction (price found) l = ''rise''
            \<and> (ALERT_MODE cfg = ''rise'' \<or> ALERT_MODE cfg = ''both''))"
    and "pct_move (price found) l \<ge> MIN_CHANGE_PCT cfg"
  shows "\<exists>st'. process parse fetch_flights cfg sub st = Inr st' \<and>
           (if JInt (price found) \<noteq> last_notified \<or> last_dir \<noteq> JStr (direction (price found) l)
            then (\<exists>m. sent st' = sent st @ [m]) \<and>
                 store st' (price_key_of sub)
                   = Some (mk_record (JInt (price found)) (JInt (price found))
                             (JStr (direction (price found) l)) (JStr (depart found)))
            else sent st' = sent st \<and>
                 store st' (price_key_of sub)
                   = Some (mk_record (JInt (price found)) last_notified last_dir
                             (JStr (depart found))))"
proof -
  let ?p = "price found"
  have fire: "should_alert cfg ?p l last_notified last_dir
                = (JInt ?p \<noteq> last_notified \<or> last_dir \<noteq> JStr (direction ?p l))"
  proof -
    from assms(4) consider
      (drop) "direction ?p l = ''drop''" "ALERT_MODE cfg = ''drop'' \<or> ALERT_MODE cfg = ''both''"
      | (rise) "direction ?p l = ''rise''" "ALERT_MODE cfg = ''rise'' \<or> ALERT_MODE cfg = ''both''"
      by blast
    then show ?thesis
      by cases (use assms(5) in \<open>simp_all add: should_alert_def\<close>)
  qed
  show ?thesis
    unfolding process_matched [where fetch_flights = fetch_flights and cfg = cfg, OF assms(1,2,3)]
    by (simp add: alert_logic_def Let_def fire del: fun_upd_apply) simp
qed

text \<open>
  Claim C2. When the record of a matched flight has no baseline (\<open>last_price\<close> is
  \<open>null\<close>, as it also is for a key without record), the step sends no message, stores the
  observed price as \<open>last_price\<close> and stores \<open>null\<close> in both notification fields.
\<close>

theorem C2_first_observation:
  assumes "split_key (key sub) = Some (origin, dest, date)"
    and "read_prev (prev_of (store st) (price_key_of sub))
           = Inr (JNull, last_notified, last_dir, last_depart)"
    and "find_flight parse (fetch_flights origin dest date) (sub_flightNo sub) (sub_airline sub)
           JNull last_depart = Inr (Some found, snapped)"
  shows "\<exists>st'. process parse fetch_flights cfg sub st = Inr st' \<and>
           sent st' = sent st \<and>
           store st' (price_key_of sub)
             = Some (mk_record (JInt (price found)) JNull JNull (JStr (depart found)))"
  unfolding process_matched [where fetch_flights = fetch_flights and cfg = cfg, OF assms]
  by (simp add: alert_logic_def Let_def)

text \<open>
  Claim C3. For a matched flight with a baseline, a price equal to \<open>last_price\<close> sends no
  message, whatever \<open>ALERT_MODE\<close> and \<open>MIN_CHANGE_PCT\<close> are (the threshold 0 included).
\<close>

theorem C3_flat_never_alerts:
  assumes "split_key (key sub) = Some (origin, dest, date)"
    and "read_prev (prev_of (store st) (price_key_of sub))
           = Inr (JInt l, last_notified, last_dir, last_depart)"
    and "find_flight parse (fetch_flights origin dest date) (sub_flightNo sub) (sub_airline sub)
           (JInt l) last_depart = Inr (Some found, snapped)"
    and "price found = l"
  shows "\<exists>st'. process parse fetch_flights cfg sub st = Inr st' \<and> sent st' = sent st \<and>
           store st' (price_key_of sub)
             = Some (mk_record (JInt l) last_notified last_dir (JStr (depart found)))"
proof -
  have "\<not> should_alert cfg l l last_notified last_dir"
    by (simp add: should_alert_def direction_def)
  then show ?thesis
    unfolding process_matched [where fetch_flights = fetch_flights and cfg = cfg, OF assms(1,2,3)]
    by (simp add: alert_logic_def Let_def assms(4))
qed

text \<open>
  Claim C4. For a matched flight with a baseline, a rise under mode \<open>drop\<close> and a drop
  under mode \<open>rise\<close> send no message, however large \<open>pct_move\<close> is.
\<close>

theorem C4_disabled_direction:
  assumes "split_key (key sub) = Some (origin, dest, date)"
    and "read_prev (prev_of (store st) (price_key_of sub))
           = Inr (JInt l, last_notified, last_dir, last_depart)"
    and "find_flight parse (fetch_flights origin dest date) (sub_flightNo sub) (sub_airline sub)
           (JInt l) last_depart = Inr (Some found, snapped)"
    and "(direction (price found) l = ''rise'' \<and> ALERT_MODE cfg = ''drop'')
         \<or> (direction (price found) l = ''drop'' \<and> ALERT_MODE cfg = ''rise'')"
  shows "\<exists>st'. process parse fetch_flights cfg sub st = Inr st' \<and> sent st' = sent st \<and>
           store st' (price_key_of sub)
             = Some (mk_record (JInt (price found)) last_notified last_dir (JStr (depart found)))"
proof -
  have "\<not> should_alert cfg (price found) l last_notified last_dir"
    using assms(4) by (auto simp: should_alert_def)
  then show ?thesis
    unfolding process_matched [where fetch_flights = fetch_flights and cfg = cfg, OF assms(1,2,3)]
    by (simp add: alert_logic_def Let_def)
qed


subsection \<open>The claims at the example\<close>

text \<open>Facts about the example setting, shared by the instances below.\<close>

lemmas ex_defs = ex_sub_def ex_pass_def ex_store_def ex_cfg_def ex_fetch_def ex_flights_def
  flight_def price_key_of_def prev_of_def

lemma ex_split: "split_key (key (ex_sub n a)) = Some (''DEL'', ''BLR'', ''2025-08-25'')"
  by (simp add: ex_sub_def split_key_def)

lemma ex_read:
  "read_prev (prev_of (store (ex_pass (ex_store lp lnp lnd ld))) (price_key_of (ex_sub ''6E200'' a)))
     = Inr (lp, lnp, lnd, ld)"
  by (simp add: ex_defs read_prev_def mk_record_def)

lemma ex_exact:
  "find_flight parse (ex_fetch ex_flights ''DEL'' ''BLR'' ''2025-08-25'')
      (sub_flightNo (ex_sub ''6E200'' a)) (sub_airline (ex_sub ''6E200'' a)) lp ld
     = Inr (Some (flight ''IndiGo'' ''6E200'' ''2025-08-25T08:00'' 4900), False)"
  by (simp add: ex_defs find_flight_def find_exact_def)

text \<open>
  C1 at the scenario of the specification: baseline 5000, new price 4900, mode \<open>drop\<close>,
  threshold 1 percent, nothing notified before.
\<close>

theorem C1_dedup_gate_witness:
  "\<exists>st'. process iso_minutes (ex_fetch ex_flights) (ex_cfg ''drop'') (ex_sub ''6E200'' ''IndiGo'')
            (ex_pass (ex_store (JInt 5000) JNull JNull (JStr ''2025-08-25T08:00''))) = Inr st' \<and>
         (\<exists>m. sent st' = [m]) \<and>
         store st' ''DEL-BLR-2025-08-25#6E200''
           = Some (mk_record (JInt 4900) (JInt 4900) (JStr ''drop'') (JStr ''2025-08-25T08:00''))"
proof -
  have dir: "(direction (price (flight ''IndiGo'' ''6E200'' ''2025-08-25T08:00'' 4900)) 5000 = ''drop''
            \<and> (ALERT_MODE (ex_cfg ''drop'') = ''drop'' \<or> ALERT_MODE (ex_cfg ''drop'') = ''both''))
         \<or> (direction (price (flight ''IndiGo'' ''6E200'' ''2025-08-25T08:00'' 4900)) 5000 = ''rise''
            \<and> (ALERT_MODE (ex_cfg ''drop'') = ''rise'' \<or> ALERT_MODE (ex_cfg ''drop'') = ''both''))"
    by (simp add: direction_def flight_def ex_cfg_def)
  have pct: "MIN_CHANGE_PCT (ex_cfg ''drop'')
               \<le> pct_move (price (flight ''IndiGo'' ''6E200'' ''2025-08-25T08:00'' 4900)) 5000"
    by (simp add: pct_move_def flight_def ex_cfg_def)
  show ?thesis
    using C1_dedup_gate [where fetch_flights = "ex_fetch ex_flights" and cfg = "ex_cfg ''drop''"
        and parse = iso_minutes,
        OF ex_split [of "''6E200''" "''IndiGo''"]
           ex_read [of "JInt 5000" JNull JNull "JStr ''2025-08-25T08:00''" "''IndiGo''"]
           ex_exact dir pct]
    by (simp add: ex_defs direction_def)
qed

text \<open>C2 at a record whose four fields are \<open>null\<close>.\<close>

theorem C2_first_observation_witness:
  "\<exists>st'. process iso_minutes (ex_fetch ex_flights) (ex_cfg ''both'') (ex_sub ''6E200'' ''IndiGo'')
            (ex_pass (ex_store JNull JNull JNull JNull)) = Inr st' \<and>
         sent st' = [] \<and>
         store st' ''DEL-BLR-2025-08-25#6E200''
           = Some (mk_record (JInt 4900) JNull JNull (JStr ''2025-08-25T08:00''))"
  using C2_first_observation [where fetch_flights = "ex_fetch ex_flights" and cfg = "ex_cfg ''both''"
      and parse = iso_minutes,
      OF ex_split [of "''6E200''" "''IndiGo''"]
         ex_read [of JNull JNull JNull JNull "''IndiGo''"] ex_exact]
  by (simp add: ex_defs)

text \<open>C3 at baseline 4900 and price 4900, mode \<open>both\<close>, threshold 0.\<close>

theorem C3_flat_never_alerts_witness:
  "\<exists>st'. process iso_minutes (ex_fetch ex_flights) ((ex_cfg ''both'')\<lparr>MIN_CHANGE_PCT := 0\<rparr>)
            (ex_sub ''6E200'' ''IndiGo'')
            (ex_pass (ex_store (JInt 4900) JNull JNull (JStr ''2025-08-25T08:00''))) = Inr st' \<and>
         sent st' = [] \<and>
         store st' ''DEL-BLR-2025-08-25#6E200''
           = Some (mk_record (JInt 4900) JNull JNull (JStr ''2025-08-25T08:00''))"
proof -
  have same: "price (flight ''IndiGo'' ''6E200'' ''2025-08-25T08:00'' 4900) = 4900"
    by (simp add: flight_def)
  show ?thesis
    using C3_flat_never_alerts [where fetch_flights = "ex_fetch ex_flights"
        and cfg = "(ex_cfg ''both'')\<lparr>MIN_CHANGE_PCT := 0\<rparr>"
        and parse = iso_minutes,
        OF ex_split [of "''6E200''" "''IndiGo''"]
           ex_read [of "JInt 4900" JNull JNull "JStr ''2025-08-25T08:00''" "''IndiGo''"]
           ex_exact same]
    by (simp add: ex_defs)
qed

text \<open>C4 at baseline 4000 and price 4900, a rise of 22.5 percent under mode \<open>drop\<close>.\<close>

theorem C4_disabled_direction_witness:
  "\<exists>st'. process iso_minutes (ex_fetch ex_flights) (ex_cfg ''drop'') (ex_sub ''6E200'' ''IndiGo'')
            (ex_pass (ex_store (JInt 4000) JNull JNull (JStr ''2025-08-25T08:00''))) = Inr st' \<and>
         sent st' = [] \<and>
         store st' ''DEL-BLR-2025-08-25#6E200''
           = Some (mk_record (JInt 4900) JNull JNull (JStr ''2025-08-25T08:00''))"
proof -
  have dir: "(direction (price (flight ''IndiGo'' ''6E200'' ''2025-08-25T08:00'' 4900)) 4000 = ''rise''
              \<and> ALERT_MODE (ex_cfg ''drop'') = ''drop'')
         \<or> (direction (price (flight ''IndiGo'' ''6E200'' ''2025-08-25T08:00'' 4900)) 4000 = ''drop''
              \<and> ALERT_MODE (ex_cfg ''drop'') = ''rise'')"
    by (simp add: direction_def flight_def ex_cfg_def)
  show ?thesis
    using C4_disabled_direction [where fetch_flights = "ex_fetch ex_flights"
        and cfg = "ex_cfg ''drop''" and parse = iso_minutes,
        OF ex_split [of "''6E200''" "''IndiGo''"]
           ex_read [of "JInt 4000" JNull JNull "JStr ''2025-08-25T08:00''" "''IndiGo''"]
           ex_exact dir]
    by (simp add: ex_defs)
qed

section \<open>Properties of the store\<close>

text \<open>A step touches no entry other than the one of its own tracking key.\<close>

lemma process_frame:
  "k \<noteq> price_key_of sub \<Longrightarrow>
     store (ending (process parse fetch_flights cfg sub st)) k = store st k"
  by (auto simp: process_def ending_def Let_def split: option.splits sum.splits prod.splits)

text \<open>A step whose subscription resolves to no flight leaves the state as it was.\<close>

lemma process_unmatched:
  "resolve parse fetch_flights sub (store st (price_key_of sub)) = None \<Longrightarrow>
     store (ending (process parse fetch_flights cfg sub st)) = store st \<and>
     changed (ending (process parse fetch_flights cfg sub st)) = changed st \<and>
     sent (ending (process parse fetch_flights cfg sub st)) = sent st"
  by (auto simp: process_def resolve_def prev_of_def ending_def Let_def
      split: option.splits sum.splits prod.splits)

text \<open>
  If every subscription of the list that has tracking key \<open>k\<close> resolves to no flight,
  the loop leaves the entry of \<open>k\<close> as it was.
\<close>

lemma run_subs_frame:
  "\<forall>sub\<in>set subs. price_key_of sub = k \<longrightarrow> resolve parse fetch_flights sub (store st k) = None
   \<Longrightarrow> store (ending (run_subs parse fetch_flights cfg subs st)) k = store st k"
proof (induction subs arbitrary: st)
  case Nil
  then show ?case by (simp add: ending_def)
next
  case (Cons sub subs)
  have step: "store (ending (process parse fetch_flights cfg sub st)) k = store st k"
  proof (cases "price_key_of sub = k")
    case True
    with Cons.prems have "resolve parse fetch_flights sub (store st (price_key_of sub)) = None"
      by simp
    then show ?thesis using process_unmatched by metis
  next
    case False
    then show ?thesis using process_frame by metis
  qed
  show ?case
  proof (cases "process parse fetch_flights cfg sub st")
    case (Inl a)
    then show ?thesis using step by (simp add: ending_def)
  next
    case (Inr st')
    with step have eq: "store st' k = store st k" by (simp add: ending_def)
    with Cons.prems have "\<forall>s\<in>set subs. price_key_of s = k \<longrightarrow>
        resolve parse fetch_flights s (store st' k) = None" by simp
    from Cons.IH [OF this] show ?thesis using Inr eq by simp
  qed
qed

lemma check_once_frame:
  assumes "\<forall>sub\<in>set selected. price_key_of sub = k \<longrightarrow>
             resolve parse fetch_flights sub (file_store k) = None"
  shows "file_after file_store (check_once parse fetch_flights cfg selected file_store) k
           = file_store k"
proof -
  let ?st = "\<lparr>store = file_store, changed = False, sent = [], printed = []\<rparr>"
  have "store (ending (run_subs parse fetch_flights cfg selected ?st)) k = store ?st k"
    by (rule run_subs_frame) (use assms in simp)
  then show ?thesis
    by (auto simp: check_once_def file_after_def ending_def split: sum.splits prod.splits)
qed

text \<open>
  Claim C7. A step in which no tier yields a candidate leaves the store, the flag
  \<open>changed\<close> and the messages untouched. Over any number of consecutive passes in which
  every subscription with tracking key \<open>k\<close> resolves to no flight, the entry stored under
  \<open>k\<close> (all of its fields, or its absence) is the one the file held before the first of
  these passes.
\<close>

theorem C7_unmatched_record_untouched:
  "(resolve parse fetch_flights sub (store st (price_key_of sub)) = None \<longrightarrow>
      store (ending (process parse fetch_flights cfg sub st)) = store st \<and>
      changed (ending (process parse fetch_flights cfg sub st)) = changed st \<and>
      sent (ending (process parse fetch_flights cfg sub st)) = sent st) \<and>
   ((\<forall>(fetch_flights, selected) \<in> set passes. \<forall>sub \<in> set selected.
        price_key_of sub = k \<longrightarrow> resolve parse fetch_flights sub (file_store k) = None) \<longrightarrow>
      main_loop parse cfg passes file_store k = file_store k)"
proof (intro conjI impI)
  assume "\<forall>(fetch_flights, selected) \<in> set passes. \<forall>sub \<in> set selected.
        price_key_of sub = k \<longrightarrow> resolve parse fetch_flights sub (file_store k) = None"
  then show "main_loop parse cfg passes file_store k = file_store k"
  proof (induction passes arbitrary: file_store)
    case Nil
    then show ?case by simp
  next
    case (Cons pass passes)
    obtain fetch_flights selected where pass: "pass = (fetch_flights, selected)"
      by (cases pass)
    let ?out = "check_once parse fetch_flights cfg selected file_store"
    have one: "file_after file_store ?out k = file_store k"
      by (rule check_once_frame) (use Cons.prems pass in auto)
    show ?case
    proof (cases "raised ?out = None")
      case True
      have "main_loop parse cfg passes (file_after file_store ?out) k
              = file_after file_store ?out k"
        by (rule Cons.IH) (use Cons.prems one in auto)
      then show ?thesis using True one by (simp add: pass Let_def)
    next
      case False
      then show ?thesis by (auto simp: pass Let_def)
    qed
  qed
qed (use process_unmatched in blast)+

section \<open>Properties of the matcher\<close>

subsection \<open>The first element of least value\<close>

lemma first_least_Nil: "first_least val [] = None"
  by (simp add: first_least_def List.map_filter_simps)

lemma first_least_skip: "val x = None \<Longrightarrow> first_least val (x # xs) = first_least val xs"
  by (simp add: first_least_def List.map_filter_simps split: list.splits)

lemma first_least_Cons:
  assumes "val x = Some a"
  shows "first_least val (x # xs) =
           find (\<lambda>y. val y = Some (Min (insert a (set (List.map_filter val xs))))) (x # xs)"
  using assms by (simp add: first_least_def List.map_filter_simps)

lemma first_least_single: "val x = Some a \<Longrightarrow> first_least val [x] = Some x"
  by (simp add: first_least_Cons List.map_filter_simps)

text \<open>
  Two facts on the least element of a finite set: a new element above a member does not
  change it; a new element above a member that is not the least is not the least.
\<close>

lemma Min_beaten:
  fixes a b :: "'b::linorder"
  assumes "finite V" "b < a"
  shows "Min (insert a (insert b V)) = Min (insert b V) \<and> a \<noteq> Min (insert b V)"
proof -
  define M where "M = Min (insert b V)"
  have le: "M \<le> b" unfolding M_def using assms(1) by (intro Min_le) simp_all
  have "Min (insert a (insert b V)) = min a M"
    unfolding M_def using assms(1) by (intro Min_insert) simp_all
  with le assms(2) have "Min (insert a (insert b V)) = M \<and> a \<noteq> M"
    by (auto simp: min_def)
  then show ?thesis unfolding M_def .
qed

lemma Min_keeps:
  fixes a b :: "'b::linorder"
  assumes "finite V" "a \<le> b"
  shows "Min (insert a (insert b V)) = Min (insert a V)
           \<and> (a \<noteq> Min (insert a V) \<longrightarrow> b \<noteq> Min (insert a V))"
proof -
  define M where "M = Min (insert a V)"
  have le: "M \<le> a" unfolding M_def using assms(1) by (intro Min_le) simp_all
  have "Min (insert b (insert a V)) = min b M"
    unfolding M_def using assms(1) by (intro Min_insert) simp_all
  then have "Min (insert a (insert b V)) = min b M" by (simp only: insert_commute)
  with le assms(2) have "Min (insert a (insert b V)) = M \<and> (a \<noteq> M \<longrightarrow> b \<noteq> M)"
    by (auto simp: min_def)
  then show ?thesis unfolding M_def .
qed

text \<open>
  The two steps of a selection loop: a head that is beaten by its successor can be
  dropped, and a successor that does not beat the head can be dropped.
\<close>

lemma first_least_beaten:
  assumes "val p = Some a" "val q = Some b" "b < a"
  shows "first_least val (p # q # xs) = first_least val (q # xs)"
proof -
  define V where "V = set (List.map_filter val xs)"
  have "finite V" by (simp add: V_def)
  from Min_beaten [OF this assms(3)]
  have m: "Min (insert a (insert b V)) = Min (insert b V)" "a \<noteq> Min (insert b V)"
    by simp_all
  have "first_least val (p # q # xs)
          = find (\<lambda>y. val y = Some (Min (insert a (insert b V)))) (p # q # xs)"
    using assms(1,2) by (simp only: first_least_Cons [where val = val, OF assms(1)] List.map_filter_simps V_def
        option.simps list.set)
  also have "\<dots> = find (\<lambda>y. val y = Some (Min (insert b V))) (q # xs)"
    using m assms(1) by (simp only: find.simps option.inject if_False)
  also have "\<dots> = first_least val (q # xs)"
    by (simp only: first_least_Cons [where val = val, OF assms(2)] V_def)
  finally show ?thesis .
qed

lemma first_least_keeps:
  assumes "val p = Some a" "val q = Some b" "a \<le> b"
  shows "first_least val (p # q # xs) = first_least val (p # xs)"
proof -
  define V where "V = set (List.map_filter val xs)"
  have "finite V" by (simp add: V_def)
  from Min_keeps [OF this assms(3)]
  have m: "Min (insert a (insert b V)) = Min (insert a V)"
    "a \<noteq> Min (insert a V) \<Longrightarrow> b \<noteq> Min (insert a V)"
    by simp_all
  have "first_least val (p # q # xs)
          = find (\<lambda>y. val y = Some (Min (insert a V))) (p # q # xs)"
    using assms(1,2) m(1)
    by (simp only: first_least_Cons [where val = val, OF assms(1)] List.map_filter_simps V_def
        option.simps list.set)
  also have "\<dots> = find (\<lambda>y. val y = Some (Min (insert a V))) (p # xs)"
  proof (cases "a = Min (insert a V)")
    case True
    then show ?thesis using assms(1) by (simp only: find.simps) simp
  next
    case False
    with m(2) have "b \<noteq> Min (insert a V)" by simp
    with False show ?thesis using assms(1,2) by (simp only: find.simps option.inject if_False)
  qed
  also have "\<dots> = first_least val (p # xs)"
    by (simp only: first_least_Cons [where val = val, OF assms(1)] V_def)
  finally show ?thesis .
qed

lemma first_least_keeps_None:
  assumes "val p = Some a" "val q = None"
  shows "first_least val (p # q # xs) = first_least val (p # xs)"
  using assms by (simp add: first_least_Cons List.map_filter_simps)

subsection \<open>The two selection loops\<close>

text \<open>\<open>min(same, key=...)\<close> returns the first candidate of least price.\<close>

lemma cheapest_first_least:
  "first_least (\<lambda>f. Some (price f)) (b # fs) = Some (cheapest b fs)"
proof (induction fs arbitrary: b)
  case Nil
  then show ?case by (simp add: first_least_single)
next
  case (Cons f fs)
  show ?case
  proof (cases "price f < price b")
    case True
    then show ?thesis
      using Cons.IH [of f] first_least_beaten [of "\<lambda>f. Some (price f)" b "price b" f "price f" fs]
      by simp
  next
    case False
    then show ?thesis
      using Cons.IH [of b] first_least_keeps [of "\<lambda>f. Some (price f)" b "price b" f "price f" fs]
      by simp
  qed
qed

lemma auto_snap_first_least:
  "auto_snap flights airline_name =
     first_least (\<lambda>f. Some (price f))
       (filter (\<lambda>f. lower (airline f) = lower airline_name) flights)"
  by (simp add: auto_snap_def cheapest_first_least first_least_Nil split: list.splits)

text \<open>The subtraction of two \<open>datetime\<close> values raises nothing but \<open>TypeError\<close>.\<close>

lemma dt_sub_cases: "dt_sub a b = Inl TypeError \<or> (\<exists>td. dt_sub a b = Inr td)"
  by (cases a; cases b) simp_all

lemma delta_of_None:
  assumes "\<forall>dep. parse (depart f) = Some dep \<longrightarrow> dt_sub dep target \<noteq> Inl TypeError"
    and "delta_of parse target f = None"
  shows "parse (depart f) = None"
proof (cases "parse (depart f)")
  case None
  then show ?thesis .
next
  case (Some dep)
  with assms(1) have "dt_sub dep target \<noteq> Inl TypeError" by simp
  with dt_sub_cases [of dep target] obtain td where "dt_sub dep target = Inr td" by blast
  with Some assms(2) show ?thesis by (simp add: delta_of_def)
qed

lemma delta_of_Some:
  assumes "delta_of parse target f = Some d"
  shows "\<exists>dep td. parse (depart f) = Some dep \<and> dt_sub dep target = Inr td
           \<and> d = \<bar>total_seconds td\<bar>"
  using assms by (auto simp: delta_of_def split: option.splits sum.splits)

text \<open>
  The loop of \<open>find_fallback\<close>, started with or without a best candidate, on a list in
  which every departure that parses can be subtracted from the target: it ends with the
  first candidate of least distance.
\<close>

lemma fallback_loop_Some:
  assumes "\<forall>f\<in>set fs. \<forall>dep. parse (depart f) = Some dep \<longrightarrow> dt_sub dep target \<noteq> Inl TypeError"
    and "delta_of parse target b = Some bd"
  shows "\<exists>f d. fallback_loop parse target fs (Some (b, bd)) = Inr (Some (f, d))
           \<and> first_least (delta_of parse target) (b # fs) = Some f
           \<and> delta_of parse target f = Some d"
  using assms
proof (induction fs arbitrary: b bd)
  case Nil
  then show ?case by (simp add: first_least_single)
next
  case (Cons f fs)
  have compat: "\<forall>f\<in>set fs. \<forall>dep. parse (depart f) = Some dep \<longrightarrow> dt_sub dep target \<noteq> Inl TypeError"
    using Cons.prems(1) by simp
  have hd: "\<forall>dep. parse (depart f) = Some dep \<longrightarrow> dt_sub dep target \<noteq> Inl TypeError"
    using Cons.prems(1) by simp
  show ?case
  proof (cases "delta_of parse target f")
    case None
    have "parse (depart f) = None" by (rule delta_of_None [OF hd None])
    then show ?thesis
      using Cons.IH [OF compat Cons.prems(2)] first_least_keeps_None [where val = "delta_of parse target", OF Cons.prems(2) None]
      by simp
  next
    case (Some d)
    from delta_of_Some [OF Some] obtain dep td where
      p: "parse (depart f) = Some dep" "dt_sub dep target = Inr td" "d = \<bar>total_seconds td\<bar>"
      by blast
    show ?thesis
    proof (cases "d < bd")
      case True
      then show ?thesis
        using p Cons.IH [OF compat Some] first_least_beaten [where val = "delta_of parse target", OF Cons.prems(2) Some True]
        by (simp add: Let_def)
    next
      case False
      then have "bd \<le> d" by simp
      then show ?thesis
        using p False Cons.IH [OF compat Cons.prems(2)]
          first_least_keeps [where val = "delta_of parse target", OF Cons.prems(2) Some]
        by (simp add: Let_def)
    qed
  qed
qed

lemma fallback_loop_None:
  assumes "\<forall>f\<in>set fs. \<forall>dep. parse (depart f) = Some dep \<longrightarrow> dt_sub dep target \<noteq> Inl TypeError"
  shows "(first_least (delta_of parse target) fs = None
            \<and> fallback_loop parse target fs None = Inr None)
         \<or> (\<exists>f d. fallback_loop parse target fs None = Inr (Some (f, d))
              \<and> first_least (delta_of parse target) fs = Some f
              \<and> delta_of parse target f = Some d)"
  using assms
proof (induction fs)
  case Nil
  then show ?case by (simp add: first_least_Nil)
next
  case (Cons f fs)
  have compat: "\<forall>f\<in>set fs. \<forall>dep. parse (depart f) = Some dep \<longrightarrow> dt_sub dep target \<noteq> Inl TypeError"
    using Cons.prems by simp
  have hd: "\<forall>dep. parse (depart f) = Some dep \<longrightarrow> dt_sub dep target \<noteq> Inl TypeError"
    using Cons.prems by simp
  show ?case
  proof (cases "delta_of parse target f")
    case None
    have "parse (depart f) = None" by (rule delta_of_None [OF hd None])
    then show ?thesis using Cons.IH [OF compat] None by (simp add: first_least_skip)
  next
    case (Some d)
    from delta_of_Some [OF Some] obtain dep td where
      p: "parse (depart f) = Some dep" "dt_sub dep target = Inr td" "d = \<bar>total_seconds td\<bar>"
      by blast
    show ?thesis
      using p fallback_loop_Some [OF compat Some] by (simp add: Let_def)
  qed
qed

text \<open>
  The fallback tier, given an airline name and a stored departure that parses, on
  candidates whose departures can all be subtracted from it: the result is the one the
  specification describes.
\<close>

lemma find_fallback_closest:
  assumes "airline_name \<noteq> []" and "truthy last_depart_iso"
    and "fromisoformat parse last_depart_iso = Some target"
    and "\<forall>f\<in>set flights. lower (airline f) = lower airline_name \<longrightarrow>
           (\<forall>dep. parse (depart f) = Some dep \<longrightarrow> dt_sub dep target \<noteq> Inl TypeError)"
  shows "find_fallback parse flights airline_name last_depart_iso
           = Inr (closest_within parse flights airline_name target)"
proof -
  let ?same = "filter (\<lambda>f. lower (airline f) = lower airline_name) flights"
  have compat: "\<forall>f\<in>set ?same. \<forall>dep. parse (depart f) = Some dep \<longrightarrow> dt_sub dep target \<noteq> Inl TypeError"
    using assms(4) by auto
  from fallback_loop_None [OF compat] show ?thesis
  proof
    assume "first_least (delta_of parse target) ?same = None
              \<and> fallback_loop parse target ?same None = Inr None"
    then show ?thesis
      using assms(1,2,3) by (simp add: find_fallback_def closest_within_def Let_def)
  next
    assume "\<exists>f d. fallback_loop parse target ?same None = Inr (Some (f, d))
              \<and> first_least (delta_of parse target) ?same = Some f
              \<and> delta_of parse target f = Some d"
    then obtain f d where "fallback_loop parse target ?same None = Inr (Some (f, d))"
      "first_least (delta_of parse target) ?same = Some f" "delta_of parse target f = Some d"
      by blast
    moreover from this have "?same \<noteq> []" by (auto simp: first_least_Nil)
    ultimately show ?thesis
      using assms(1,2,3) by (simp add: find_fallback_def closest_within_def Let_def)
  qed
qed

subsection \<open>The third tier\<close>

text \<open>
  Claim C6. The third tier chooses the flight (the \<open>[snap]\<close> line is printed) exactly
  when the exact tier and the fallback tier both return nothing, \<open>last_price\<close> is
  \<open>null\<close> and the airline name is not empty; the flight it chooses is the first of least
  price among the candidates whose airline equals the name up to case. With a baseline
  (\<open>last_price\<close> not \<open>null\<close>) the third tier never chooses: when the two other tiers
  return nothing, no flight is found.
\<close>

theorem C6_auto_snap:
  "(find_flight parse flights flight_no airline_name lp ldp = Inr (Some f, True)
      \<longleftrightarrow> find_exact flights flight_no = None
          \<and> find_fallback parse flights airline_name ldp = Inr None
          \<and> lp = JNull \<and> airline_name \<noteq> []
          \<and> first_least (\<lambda>f. Some (price f))
                (filter (\<lambda>f. lower (airline f) = lower airline_name) flights) = Some f)
   \<and> find_flight parse flights flight_no airline_name lp ldp \<noteq> Inr (None, True)
   \<and> (lp \<noteq> JNull \<longrightarrow> find_exact flights flight_no = None \<longrightarrow>
        find_fallback parse flights airline_name ldp = Inr None \<longrightarrow>
        find_flight parse flights flight_no airline_name lp ldp = Inr (None, False))"
  by (auto simp: find_flight_def auto_snap_first_least split: option.splits sum.splits)

text \<open>
  C6 at the example: flight \<open>6E999\<close> is not listed, nothing is stored, and the cheaper of
  the two IndiGo candidates is chosen.
\<close>

lemma ex_snap:
  "first_least (\<lambda>f. Some (price f))
     (filter (\<lambda>f. lower (airline f) = lower ''INDIGO'') ex_flights)
     = Some (flight ''IndiGo'' ''6E214'' ''2025-08-25T09:30'' 4700)"
  by code_simp

lemma ex_no_exact: "find_exact ex_flights ''6E999'' = None"
  by code_simp

lemma ex_no_fallback: "find_fallback iso_minutes ex_flights ''INDIGO'' JNull = Inr None"
  by (simp add: find_fallback_def)

theorem C6_auto_snap_witness:
  "find_flight iso_minutes ex_flights ''6E999'' ''INDIGO'' JNull JNull
     = Inr (Some (flight ''IndiGo'' ''6E214'' ''2025-08-25T09:30'' 4700), True)"
  using C6_auto_snap [of iso_minutes ex_flights "''6E999''" "''INDIGO''" JNull JNull
      "flight ''IndiGo'' ''6E214'' ''2025-08-25T09:30'' 4700"]
    ex_snap ex_no_exact ex_no_fallback
  by simp

subsection \<open>Timestamps that do not parse\<close>

text \<open>The loop gives the same result on the candidates whose departure parses.\<close>

lemma fallback_loop_skip:
  "fallback_loop parse target (filter (\<lambda>f. parse (depart f) \<noteq> None) fs) best
     = fallback_loop parse target fs best"
  by (induction fs arbitrary: best) (auto simp: Let_def split: option.splits sum.splits)

text \<open>A candidate the loop returns was its accumulator or has a departure that parses.\<close>

lemma fallback_loop_sel:
  "fallback_loop parse target fs best = Inr (Some (f, d)) \<Longrightarrow>
     best = Some (f, d) \<or> (f \<in> set fs \<and> parse (depart f) \<noteq> None)"
proof (induction fs arbitrary: best)
  case Nil
  then show ?case by simp
next
  case (Cons g gs)
  show ?case
  proof (cases "parse (depart g)")
    case None
    with Cons.prems have "fallback_loop parse target gs best = Inr (Some (f, d))" by simp
    from Cons.IH [OF this] show ?thesis by auto
  next
    case (Some dep)
    show ?thesis
    proof (cases "dt_sub dep target")
      case (Inl e)
      with Some Cons.prems show ?thesis by simp
    next
      case (Inr td)
      let ?delta = "\<bar>total_seconds td\<bar>"
      show ?thesis
      proof (cases "case best of None \<Rightarrow> True | Some (b, best_delta) \<Rightarrow> ?delta < best_delta")
        case True
        with Some Inr Cons.prems
        have "fallback_loop parse target gs (Some (g, ?delta)) = Inr (Some (f, d))"
          by (simp add: Let_def)
        from Cons.IH [OF this] show ?thesis using Some by auto
      next
        case False
        with Some Inr Cons.prems
        have "fallback_loop parse target gs best = Inr (Some (f, d))"
          by (simp add: Let_def)
        from Cons.IH [OF this] show ?thesis by auto
      qed
    qed
  qed
qed

lemma fallback_loop_all_skipped:
  "filter (\<lambda>f. parse (depart f) \<noteq> None) fs = [] \<Longrightarrow> fallback_loop parse target fs best = Inr best"
  using fallback_loop_skip [of parse target fs best] by simp

text \<open>
  Claim C10. If the stored \<open>last_depart\<close> does not parse, \<open>find_fallback\<close> returns no
  match and raises nothing. A candidate whose \<open>depart\<close> does not parse is skipped:
  removing all such candidates changes neither the result nor whether an exception is
  raised, and the candidate returned, if any, has a departure that parses.
\<close>

theorem C10_malformed_timestamps:
  "(fromisoformat parse last_depart_iso = None \<longrightarrow>
      find_fallback parse flights airline_name last_depart_iso = Inr None)
   \<and> find_fallback parse (filter (\<lambda>f. parse (depart f) \<noteq> None) flights) airline_name
         last_depart_iso
       = find_fallback parse flights airline_name last_depart_iso
   \<and> (\<forall>f. find_fallback parse flights airline_name last_depart_iso = Inr (Some f) \<longrightarrow>
          f \<in> set flights \<and> parse (depart f) \<noteq> None)"
proof -
  have first: "fromisoformat parse last_depart_iso = None \<longrightarrow>
      find_fallback parse flights airline_name last_depart_iso = Inr None"
    by (simp add: find_fallback_def)
  let ?A = "\<lambda>f. lower (airline f) = lower airline_name"
  let ?P = "\<lambda>f. parse (depart f) \<noteq> None"
  define same where "same = filter ?A flights"
  have same': "filter ?A (filter ?P flights) = filter ?P same"
    unfolding same_def by (simp add: conj_commute)
  have loop: "fallback_loop parse target (filter ?P same) None
                = fallback_loop parse target same None" for target
    by (rule fallback_loop_skip)
  have none: "fallback_loop parse target same None = Inr None"
    if "filter ?P same = []" for target
    using that by (rule fallback_loop_all_skipped)
  have L: "find_fallback parse (filter ?P flights) airline_name last_depart_iso =
      (if airline_name = [] \<or> \<not> truthy last_depart_iso then Inr None
       else (case fromisoformat parse last_depart_iso of
               None \<Rightarrow> Inr None
             | Some target \<Rightarrow>
                 if filter ?P same = [] then Inr None
                 else (case fallback_loop parse target (filter ?P same) None of
                         Inl e \<Rightarrow> Inl e
                       | Inr None \<Rightarrow> Inr None
                       | Inr (Some (best, best_delta)) \<Rightarrow>
                           if best_delta \<le> 15 * 60 then Inr (Some best) else Inr None)))"
    by (simp only: find_fallback_def Let_def same')
  have R: "find_fallback parse flights airline_name last_depart_iso =
      (if airline_name = [] \<or> \<not> truthy last_depart_iso then Inr None
       else (case fromisoformat parse last_depart_iso of
               None \<Rightarrow> Inr None
             | Some target \<Rightarrow>
                 if same = [] then Inr None
                 else (case fallback_loop parse target same None of
                         Inl e \<Rightarrow> Inl e
                       | Inr None \<Rightarrow> Inr None
                       | Inr (Some (best, best_delta)) \<Rightarrow>
                           if best_delta \<le> 15 * 60 then Inr (Some best) else Inr None)))"
    by (simp only: find_fallback_def Let_def same_def)
  have second: "find_fallback parse (filter ?P flights) airline_name last_depart_iso
          = find_fallback parse flights airline_name last_depart_iso"
  proof (cases "filter ?P same = []")
    case True
    then show ?thesis unfolding L R by (simp add: none split: option.splits)
  next
    case False
    then have "same \<noteq> []" by auto
    with False show ?thesis unfolding L R loop by (simp split: option.splits)
  qed
  have third: "f \<in> set flights \<and> parse (depart f) \<noteq> None"
    if a: "find_fallback parse flights airline_name last_depart_iso = Inr (Some f)" for f
  proof -
    from a obtain target d where
      "fallback_loop parse target (filter ?A flights) None = Inr (Some (f, d))"
      by (auto simp: find_fallback_def Let_def
          split: if_splits option.splits sum.splits prod.splits)
    from fallback_loop_sel [OF this] show ?thesis by auto
  qed
  from first second third show ?thesis by blast
qed

text \<open>
  C10 at the example: the stored string \<open>soon\<close>, and the airline Akasa, whose only
  candidate has the departure \<open>soon\<close>.
\<close>

lemma ex_unparsed: "fromisoformat iso_minutes (JStr ''soon'') = None"
  by (simp add: iso_minutes_def)

theorem C10_malformed_timestamps_witness:
  "find_fallback iso_minutes ex_flights ''IndiGo'' (JStr ''soon'') = Inr None
   \<and> find_fallback iso_minutes (filter (\<lambda>f. iso_minutes (depart f) \<noteq> None) ex_flights)
        ''Akasa'' (JStr ''2025-08-25T08:00'')
      = find_fallback iso_minutes ex_flights ''Akasa'' (JStr ''2025-08-25T08:00'')"
  using C10_malformed_timestamps [of iso_minutes "JStr ''soon''" ex_flights "''IndiGo''"]
    C10_malformed_timestamps [of iso_minutes "JStr ''2025-08-25T08:00''" ex_flights "''Akasa''"]
    ex_unparsed
  by simp

subsection \<open>A stored departure with an offset against candidates without\<close>

text \<open>
  Claim C5 says that, for every candidate list, the fallback tier selects the first
  same-airline candidate of least distance to \<open>last_depart\<close> and returns it when that
  distance is at most 900 seconds, and no match otherwise; \<open>find_fallback_closest\<close> above
  shows this wherever every departure that parses can be subtracted from \<open>last_depart\<close>.
  Here the stored departure carries a UTC offset and the same-airline candidate carries
  none: the subtraction, which stands outside the \<open>try\<close> that guards the parsing, raises
  \<open>TypeError\<close>, and the pass ends with that exception instead of a match or no match.
\<close>

theorem C5_mixed_offsets_raise:
  "find_fallback iso_minutes ex_later_flights ''IndiGo'' (JStr ''2025-08-25T08:00+05:30'')
     = Inl TypeError
   \<and> raised (check_once iso_minutes (ex_fetch ex_later_flights) (ex_cfg ''drop'')
               [ex_sub ''6E200'' ''IndiGo'']
               (ex_store (JInt 5000) JNull JNull (JStr ''2025-08-25T08:00+05:30'')))
       = Some TypeError"
  by code_simp

section \<open>The store over several passes, at the example\<close>

text \<open>
  In the later pass flight \<open>6E200\<close> is not listed, the only IndiGo candidate departs 90
  minutes after the stored departure, and a baseline exists: no tier yields a flight.
\<close>

lemma ex_unresolved:
  "resolve iso_minutes (ex_fetch ex_later_flights) (ex_sub ''6E200'' ''IndiGo'')
     (ex_store (JInt 5000) JNull JNull (JStr ''2025-08-25T08:00'') ''DEL-BLR-2025-08-25#6E200'')
     = None"
  by code_simp


text \<open>C7 over three such passes.\<close>

theorem C7_unmatched_record_untouched_witness:
  "main_loop iso_minutes (ex_cfg ''drop'')
     [(ex_fetch ex_later_flights, [ex_sub ''6E200'' ''IndiGo'']),
      (ex_fetch ex_later_flights, [ex_sub ''6E200'' ''IndiGo'']),
      (ex_fetch ex_later_flights, [ex_sub ''6E200'' ''IndiGo''])]
     (ex_store (JInt 5000) JNull JNull (JStr ''2025-08-25T08:00''))
     ''DEL-BLR-2025-08-25#6E200''
   = Some (mk_record (JInt 5000) JNull JNull (JStr ''2025-08-25T08:00''))"
proof -
  let ?passes = "[(ex_fetch ex_later_flights, [ex_sub ''6E200'' ''IndiGo'']),
      (ex_fetch ex_later_flights, [ex_sub ''6E200'' ''IndiGo'']),
      (ex_fetch ex_later_flights, [ex_sub ''6E200'' ''IndiGo''])]"
  let ?file = "ex_store (JInt 5000) JNull JNull (JStr ''2025-08-25T08:00'')"
  have hyp: "\<forall>(fetch_flights, selected) \<in> set ?passes. \<forall>sub \<in> set selected.
        price_key_of sub = ''DEL-BLR-2025-08-25#6E200'' \<longrightarrow>
        resolve iso_minutes fetch_flights sub (?file ''DEL-BLR-2025-08-25#6E200'') = None"
    by (simp add: ex_unresolved)
  from C7_unmatched_record_untouched [where passes = ?passes and file_store = ?file
      and k = "''DEL-BLR-2025-08-25#6E200''" and parse = iso_minutes and cfg = "ex_cfg ''drop''",
      THEN conjunct2, THEN mp, OF hyp]
  show ?thesis by (simp add: ex_store_def)
qed

section \<open>When the store is written\<close>

text \<open>
  A step that returns sets \<open>changed\<close> exactly when it prints the line of a matched
  flight, and while \<open>changed\<close> is unset the store in memory is the one read.
\<close>

lemma process_changed:
  assumes "process parse fetch_flights cfg sub st = Inr st'"
  shows "\<exists>new. printed st' = printed st @ new
           \<and> changed st' = (changed st \<or> (\<exists>ev\<in>set new. is_Observed ev))
           \<and> (changed st' \<or> store st' = store st)"
  using assms
  by (auto simp: process_def Let_def split: option.splits sum.splits prod.splits if_splits)

text \<open>A step that raises has not touched the store, the flag or the messages.\<close>

lemma process_raised_printed:
  assumes "process parse fetch_flights cfg sub st = Inl (e, st')"
  shows "store st' = store st \<and> changed st' = changed st \<and> sent st' = sent st"
  using assms
  by (auto simp: process_def Let_def split: option.splits sum.splits prod.splits if_splits)

text \<open>The same for the whole loop.\<close>

lemma run_subs_changed:
  assumes "run_subs parse fetch_flights cfg subs st = Inr st'"
  shows "\<exists>new. printed st' = printed st @ new
           \<and> changed st' = (changed st \<or> (\<exists>ev\<in>set new. is_Observed ev))
           \<and> (changed st' \<or> store st' = store st)"
  using assms
proof (induction subs arbitrary: st)
  case Nil
  then show ?case by simp
next
  case (Cons sub subs)
  from Cons.prems obtain st1 where
    one: "process parse fetch_flights cfg sub st = Inr st1"
    and rest: "run_subs parse fetch_flights cfg subs st1 = Inr st'"
    by (auto split: sum.splits)
  from process_changed [OF one] obtain new1 where
    n1: "printed st1 = printed st @ new1"
      "changed st1 = (changed st \<or> (\<exists>ev\<in>set new1. is_Observed ev))"
      "changed st1 \<or> store st1 = store st"
    by blast
  from Cons.IH [OF rest] obtain new2 where
    n2: "printed st' = printed st1 @ new2"
      "changed st' = (changed st1 \<or> (\<exists>ev\<in>set new2. is_Observed ev))"
      "changed st' \<or> store st' = store st1"
    by blast
  have "printed st' = printed st @ (new1 @ new2)" using n1(1) n2(1) by simp
  moreover have "changed st' = (changed st \<or> (\<exists>ev\<in>set (new1 @ new2). is_Observed ev))"
    using n1(2) n2(2) by auto
  moreover have "changed st' \<or> store st' = store st" using n1(2,3) n2(2,3) by auto
  ultimately show ?case by blast
qed

text \<open>
  Claim C8, as the code has it. A pass calls \<open>set_store\<close> (once, at its end) if and only
  if it ends without exception and matched at least one subscribed flight; whenever the
  store in memory differs at the end of the loop from the store read, it is written. The
  flag is set at every match, also when the record written equals the record read.
\<close>

theorem C8_store_written_on_match:
  "((saved (check_once parse fetch_flights cfg selected file_store) \<noteq> None)
      = (raised (check_once parse fetch_flights cfg selected file_store) = None
         \<and> (\<exists>ev\<in>set (lines (check_once parse fetch_flights cfg selected file_store)).
               is_Observed ev)))
   \<and> (\<forall>st'. run_subs parse fetch_flights cfg selected
               \<lparr>store = file_store, changed = False, sent = [], printed = []\<rparr> = Inr st'
             \<longrightarrow> store st' \<noteq> file_store
             \<longrightarrow> saved (check_once parse fetch_flights cfg selected file_store)
                   = Some (store st'))"
proof (cases "selected = []")
  case True
  then show ?thesis by (simp add: check_once_def)
next
  case False
  let ?init = "\<lparr>store = file_store, changed = False, sent = [], printed = []\<rparr>"
  show ?thesis
  proof (cases "run_subs parse fetch_flights cfg selected ?init")
    case (Inl a)
    then show ?thesis using False by (simp add: check_once_def split: prod.splits)
  next
    case (Inr st')
    from run_subs_changed [OF Inr] obtain new where
      "printed st' = new" "changed st' = (\<exists>ev\<in>set new. is_Observed ev)"
      "changed st' \<or> store st' = file_store"
      by auto
    then show ?thesis using False Inr by (auto simp: check_once_def)
  qed
qed


text \<open>
  The step for a flight whose price and departure are the stored ones: the record
  written is the record read.
\<close>

lemma ex_flat_step:
  "process iso_minutes (ex_fetch ex_flights) (ex_cfg ''drop'') (ex_sub ''6E200'' ''IndiGo'')
     (ex_pass (ex_store (JInt 4900) JNull JNull (JStr ''2025-08-25T08:00'')))
   = Inr \<lparr>store = ex_store (JInt 4900) JNull JNull (JStr ''2025-08-25T08:00''),
          changed = True, sent = [],
          printed = [Observed ''DEL-BLR-2025-08-25#6E200'' 4900 (JInt 4900) JNull JNull]\<rparr>"
  unfolding process_matched [where fetch_flights = "ex_fetch ex_flights"
      and cfg = "ex_cfg ''drop''" and parse = iso_minutes,
      OF ex_split [of "''6E200''" "''IndiGo''"]
         ex_read [of "JInt 4900" JNull JNull "JStr ''2025-08-25T08:00''" "''IndiGo''"]
         ex_exact]
  by (simp add: alert_logic_def should_alert_def direction_def ex_defs)

text \<open>
  C8 as stated fails there: no record changes its value, and the store is written.
\<close>

theorem C8_counterexample:
  "saved (check_once iso_minutes (ex_fetch ex_flights) (ex_cfg ''drop'')
            [ex_sub ''6E200'' ''IndiGo'']
            (ex_store (JInt 4900) JNull JNull (JStr ''2025-08-25T08:00'')))
     = Some (ex_store (JInt 4900) JNull JNull (JStr ''2025-08-25T08:00''))"
  by (simp add: check_once_def ex_flat_step [unfolded ex_pass_def])

text \<open>C8 as the code has it, at the same pass.\<close>

theorem C8_store_written_on_match_witness:
  "raised (check_once iso_minutes (ex_fetch ex_flights) (ex_cfg ''drop'')
            [ex_sub ''6E200'' ''IndiGo'']
            (ex_store (JInt 4900) JNull JNull (JStr ''2025-08-25T08:00''))) = None
   \<and> (\<exists>ev\<in>set (lines (check_once iso_minutes (ex_fetch ex_flights) (ex_cfg ''drop'')
            [ex_sub ''6E200'' ''IndiGo'']
            (ex_store (JInt 4900) JNull JNull (JStr ''2025-08-25T08:00'')))). is_Observed ev)"
proof -
  have "saved (check_once iso_minutes (ex_fetch ex_flights) (ex_cfg ''drop'')
            [ex_sub ''6E200'' ''IndiGo'']
            (ex_store (JInt 4900) JNull JNull (JStr ''2025-08-25T08:00''))) \<noteq> None"
    by (simp add: check_once_def ex_flat_step [unfolded ex_pass_def])
  with C8_store_written_on_match [of iso_minutes "ex_fetch ex_flights" "ex_cfg ''drop''"
      "[ex_sub ''6E200'' ''IndiGo'']" "ex_store (JInt 4900) JNull JNull (JStr ''2025-08-25T08:00'')"]
  show ?thesis by blast
qed

section \<open>Stored records without validation\<close>

text \<open>The step for a stored record that lacks \<open>last_price\<close>.\<close>

lemma ex_broken_step:
  "process iso_minutes (ex_fetch ex_flights) (ex_cfg ''drop'') (ex_sub ''6E200'' ''IndiGo'')
     (ex_pass ex_broken_store) = Inl (KeyError, ex_pass ex_broken_store)"
  by (simp add: process_def split_key_def read_prev_def prev_of_def price_key_of_def ex_sub_def
      ex_pass_def ex_broken_store_def)

text \<open>
  C9 as stated fails there: the pass does not take the first-observation path, it ends
  with \<open>KeyError\<close> and writes nothing.
\<close>

theorem C9_counterexample:
  "raised (check_once iso_minutes (ex_fetch ex_flights) (ex_cfg ''drop'')
             [ex_sub ''6E200'' ''IndiGo''] ex_broken_store) = Some KeyError
   \<and> saved (check_once iso_minutes (ex_fetch ex_flights) (ex_cfg ''drop'')
             [ex_sub ''6E200'' ''IndiGo''] ex_broken_store) = None"
  by (simp add: check_once_def ex_broken_step [unfolded ex_pass_def])

text \<open>
  Claim C9, as the code has it. A tracking key with no stored record reads as a record
  of four \<open>null\<close> fields, so a match takes the first-observation path. A stored record
  is read as it is: when it lacks \<open>last_price\<close>, \<open>last_notified_price\<close> or \<open>last_depart\<close>
  the step raises \<open>KeyError\<close>; when it lacks only \<open>last_notified_dir\<close> that field reads
  as \<open>null\<close>. A pass that ends with an exception writes nothing.
\<close>

theorem C9_record_read_unvalidated:
  assumes "split_key (key sub) = Some (origin, dest, date)"
  shows "(\<forall>found snapped. store st (price_key_of sub) = None \<longrightarrow>
            find_flight parse (fetch_flights origin dest date) (sub_flightNo sub)
              (sub_airline sub) JNull JNull = Inr (Some found, snapped) \<longrightarrow>
            (\<exists>st'. process parse fetch_flights cfg sub st = Inr st' \<and> sent st' = sent st \<and>
               store st' (price_key_of sub)
                 = Some (mk_record (JInt (price found)) JNull JNull (JStr (depart found)))))
     \<and> (\<forall>r. store st (price_key_of sub) = Some r \<longrightarrow>
            r ''last_price'' = None \<or> r ''last_notified_price'' = None
              \<or> r ''last_depart'' = None \<longrightarrow>
            process parse fetch_flights cfg sub st = Inl (KeyError, st))
     \<and> (\<forall>r a b d. store st (price_key_of sub) = Some r \<longrightarrow>
            r ''last_price'' = Some a \<longrightarrow> r ''last_notified_price'' = Some b \<longrightarrow>
            r ''last_depart'' = Some d \<longrightarrow> r ''last_notified_dir'' = None \<longrightarrow>
            read_prev (prev_of (store st) (price_key_of sub)) = Inr (a, b, JNull, d))
     \<and> (raised (check_once parse fetch_flights cfg selected file_store) \<noteq> None \<longrightarrow>
          saved (check_once parse fetch_flights cfg selected file_store) = None)"
proof (intro conjI allI impI)
  fix found snapped
  assume absent: "store st (price_key_of sub) = None"
    and found: "find_flight parse (fetch_flights origin dest date) (sub_flightNo sub)
              (sub_airline sub) JNull JNull = Inr (Some found, snapped)"
  have rd: "read_prev (prev_of (store st) (price_key_of sub)) = Inr (JNull, JNull, JNull, JNull)"
    using absent by (simp add: prev_of_def no_record_def read_prev_def mk_record_def)
  show "\<exists>st'. process parse fetch_flights cfg sub st = Inr st' \<and> sent st' = sent st \<and>
               store st' (price_key_of sub)
                 = Some (mk_record (JInt (price found)) JNull JNull (JStr (depart found)))"
    unfolding process_matched [where fetch_flights = fetch_flights and cfg = cfg,
        OF assms rd found]
    by (simp add: alert_logic_def Let_def)
next
  fix r
  assume "store st (price_key_of sub) = Some r"
    and "r ''last_price'' = None \<or> r ''last_notified_price'' = None \<or> r ''last_depart'' = None"
  then show "process parse fetch_flights cfg sub st = Inl (KeyError, st)"
    using assms
    by (auto simp: process_def read_prev_def prev_of_def Let_def split: option.splits)
next
  fix r a b d
  assume "store st (price_key_of sub) = Some r" "r ''last_price'' = Some a"
    "r ''last_notified_price'' = Some b" "r ''last_depart'' = Some d"
    "r ''last_notified_dir'' = None"
  then show "read_prev (prev_of (store st) (price_key_of sub)) = Inr (a, b, JNull, d)"
    by (simp add: read_prev_def prev_of_def)
next
  assume "raised (check_once parse fetch_flights cfg selected file_store) \<noteq> None"
  then show "saved (check_once parse fetch_flights cfg selected file_store) = None"
    by (auto simp: check_once_def split: if_splits sum.splits prod.splits)
qed

text \<open>C9 as the code has it, at the broken record and at an empty store.\<close>

theorem C9_record_read_unvalidated_witness:
  "process iso_minutes (ex_fetch ex_flights) (ex_cfg ''drop'') (ex_sub ''6E200'' ''IndiGo'')
     (ex_pass ex_broken_store) = Inl (KeyError, ex_pass ex_broken_store)
   \<and> (\<exists>st'. process iso_minutes (ex_fetch ex_flights) (ex_cfg ''drop'')
               (ex_sub ''6E200'' ''IndiGo'') (ex_pass Map.empty) = Inr st' \<and> sent st' = [] \<and>
         store st' ''DEL-BLR-2025-08-25#6E200''
           = Some (mk_record (JInt 4900) JNull JNull (JStr ''2025-08-25T08:00'')))"
proof -
  note inst = C9_record_read_unvalidated [where fetch_flights = "ex_fetch ex_flights"
      and cfg = "ex_cfg ''drop''" and parse = iso_minutes,
      OF ex_split [of "''6E200''" "''IndiGo''"]]
  have broken: "store (ex_pass ex_broken_store) (price_key_of (ex_sub ''6E200'' ''IndiGo''))
      = Some [''last_notified_price'' \<mapsto> JNull, ''last_notified_dir'' \<mapsto> JNull,
              ''last_depart'' \<mapsto> JStr ''2025-08-25T08:00'']"
    by (simp add: ex_pass_def ex_broken_store_def price_key_of_def ex_sub_def)
  have absent: "store (ex_pass Map.empty) (price_key_of (ex_sub ''6E200'' ''IndiGo'')) = None"
    by (simp add: ex_pass_def)
  have one: "process iso_minutes (ex_fetch ex_flights) (ex_cfg ''drop'')
      (ex_sub ''6E200'' ''IndiGo'') (ex_pass ex_broken_store)
      = Inl (KeyError, ex_pass ex_broken_store)"
    using inst [of "ex_pass ex_broken_store", THEN conjunct2, THEN conjunct1] broken by simp
  have two: "\<exists>st'. process iso_minutes (ex_fetch ex_flights) (ex_cfg ''drop'')
               (ex_sub ''6E200'' ''IndiGo'') (ex_pass Map.empty) = Inr st' \<and> sent st' = [] \<and>
         store st' ''DEL-BLR-2025-08-25#6E200''
           = Some (mk_record (JInt 4900) JNull JNull (JStr ''2025-08-25T08:00''))"
    using inst [of "ex_pass Map.empty", THEN conjunct1, rule_format,
        OF absent ex_exact [of iso_minutes "''IndiGo''" JNull JNull]]
    by (simp add: ex_defs)
  from one two show ?thesis by blast
qed

end
